theory Spec2Isabelle
  imports
    Complex_Main
    "HOL-Library.AList"
    "HOL-Library.Char_ord"
    "HOL-Library.List_Lexorder"
    "HOL-Library.Product_Lexorder"
begin

section \<open>The job scheduler of yt\_downloader/server.py\<close>

text \<open>
  A shallow embedding of the scheduler core of \<^verbatim>\<open>src/yt_downloader/server.py\<close>: the
  task registry (\<^verbatim>\<open>tasks\<close>, \<^verbatim>\<open>task_order\<close>), the admission pass
  \<^verbatim>\<open>try_schedule_next\<close>, the worker \<^verbatim>\<open>_run_task\<close>, the progress reporter
  \<^verbatim>\<open>_progress_hook\<close>, submission \<^verbatim>\<open>queue_tasks\<close>, cleanup
  \<^verbatim>\<open>clear_completed_tasks\<close>, \<^verbatim>\<open>set_concurrency\<close> and \<^verbatim>\<open>gather_insights\<close>.

  The module's globals become one record of state that every operation takes and returns.
  Each \<^verbatim>\<open>with task_lock\<close> block is one atomic function of the model; the interleaving of
  threads is a sequence of such functions. The wall clock is an input: the n-th call of
  \<^verbatim>\<open>datetime.utcnow()\<close> reads \<open>clk n\<close>, and the state counts the calls made so far.
\<close>

subsection \<open>Python values\<close>

text \<open>
  Values decoded from JSON, and the free-form values of a progress record. Python floats
  are modelled by the real numbers they denote (no rounding error, no infinities, no NaN).
\<close>

datatype pyval =
    PNone
  | PBool bool
  | PInt int
  | PFloat real
  | PStr string
  | PList "pyval list"
  | PDict "(string \<times> pyval) list"

datatype error =
    AttributeError
  | TypeError
  | ValueError
  | ZeroDivisionError
  | Unmodelled

text \<open>Truthiness, as \<^verbatim>\<open>bool(v)\<close> and the operands of \<^verbatim>\<open>or\<close>, \<^verbatim>\<open>not\<close> and \<^verbatim>\<open>if\<close> see it.\<close>

fun truthy :: "pyval \<Rightarrow> bool" where
  "truthy PNone = False"
| "truthy (PBool b) = b"
| "truthy (PInt n) = (n \<noteq> 0)"
| "truthy (PFloat r) = (r \<noteq> 0)"
| "truthy (PStr s) = (s \<noteq> [])"
| "truthy (PList vs) = (vs \<noteq> [])"
| "truthy (PDict kvs) = (kvs \<noteq> [])"

text \<open>\<^verbatim>\<open>d.get(k)\<close>: the value, or \<^verbatim>\<open>None\<close> for a missing key.\<close>

definition dict_get :: "(string \<rightharpoonup> pyval) \<Rightarrow> string \<Rightarrow> pyval" where
  "dict_get d k = (case d k of None \<Rightarrow> PNone | Some v \<Rightarrow> v)"

text \<open>\<^verbatim>\<open>a or b\<close>.\<close>

definition py_or :: "pyval \<Rightarrow> pyval \<Rightarrow> pyval" where
  "py_or a b = (if truthy a then a else b)"

subsection \<open>Strings\<close>

text \<open>
  A string is a list of code points below 256. \<^verbatim>\<open>str.isspace\<close> holds there for the code
  points 9 to 13, 28 to 32, 133 and 160; \<^verbatim>\<open>str.splitlines\<close> breaks at 10 to 13, 28 to 30
  and 133, with CR LF as one break.
\<close>

definition is_space :: "char \<Rightarrow> bool" where
  "is_space c = ((of_char c :: nat) \<in> {9, 10, 11, 12, 13, 28, 29, 30, 31, 32, 133, 160})"

definition is_linebreak :: "char \<Rightarrow> bool" where
  "is_linebreak c = ((of_char c :: nat) \<in> {10, 11, 12, 13, 28, 29, 30, 133})"

definition strip :: "string \<Rightarrow> string" where
  "strip s = rev (dropWhile is_space (rev (dropWhile is_space s)))"

fun splitlines_from :: "string \<Rightarrow> string \<Rightarrow> string list" where
  "splitlines_from cur [] = (if cur = [] then [] else [cur])"
| "splitlines_from cur [c] = (if is_linebreak c then [cur] else [cur @ [c]])"
| "splitlines_from cur (c # d # cs) =
     (if (of_char c :: nat) = 13 \<and> (of_char d :: nat) = 10 then cur # splitlines_from [] cs
      else if is_linebreak c then cur # splitlines_from [] (d # cs)
      else splitlines_from (cur @ [c]) (d # cs))"

definition splitlines :: "string \<Rightarrow> string list" where
  "splitlines s = splitlines_from [] s"

fun split_from :: "char \<Rightarrow> string \<Rightarrow> string \<Rightarrow> string list" where
  "split_from sep cur [] = [cur]"
| "split_from sep cur (c # cs) =
     (if c = sep then cur # split_from sep [] cs else split_from sep (cur @ [c]) cs)"

text \<open>\<^verbatim>\<open>s.split(",")\<close>.\<close>

definition split_comma :: "string \<Rightarrow> string list" where
  "split_comma s = split_from (CHR '','') [] s"

text \<open>
  \<^verbatim>\<open>str.capitalize\<close>: the first character in upper case, the rest in lower case. The
  case mapping is that of the ASCII letters; other code points are left as they are.
\<close>

definition lower_letters :: string where
  "lower_letters = ''abcdefghijklmnopqrstuvwxyz''"

definition upper_letters :: string where
  "upper_letters = ''ABCDEFGHIJKLMNOPQRSTUVWXYZ''"

definition to_upper :: "char \<Rightarrow> char" where
  "to_upper c = (case map_of (zip lower_letters upper_letters) c of None \<Rightarrow> c | Some u \<Rightarrow> u)"

definition to_lower :: "char \<Rightarrow> char" where
  "to_lower c = (case map_of (zip upper_letters lower_letters) c of None \<Rightarrow> c | Some l \<Rightarrow> l)"

fun capitalize :: "string \<Rightarrow> string" where
  "capitalize [] = []"
| "capitalize (c # cs) = to_upper c # map to_lower cs"

text \<open>Decimal digits: \<^verbatim>\<open>str(n)\<close> and the zero-padded fields of the time formats.\<close>

definition digit_char :: "nat \<Rightarrow> char" where
  "digit_char d = ''0123456789'' ! (d mod 10)"

fun digits :: "nat \<Rightarrow> string" where
  "digits n = (if n < 10 then [digit_char n] else digits (n div 10) @ [digit_char n])"

declare digits.simps [simp del]

definition str_int :: "int \<Rightarrow> string" where
  "str_int n = (if n < 0 then CHR ''-'' # digits (nat (- n)) else digits (nat n))"

definition zero_pad :: "nat \<Rightarrow> nat \<Rightarrow> string" where
  "zero_pad w n = replicate (w - length (digits n)) (CHR ''0'') @ digits n"

subsection \<open>Numbers\<close>

text \<open>
  \<^verbatim>\<open>round(x, 1)\<close> on a float: the nearest multiple of one tenth, a tie going to the
  even tenth.
\<close>

definition py_round1 :: "real \<Rightarrow> real" where
  "py_round1 x =
     (let y = x * 10; f = \<lfloor>y\<rfloor>; d = y - of_int f
      in of_int (if d < 1 / 2 then f else if 1 / 2 < d then f + 1
                 else if even f then f else f + 1) / 10)"

text \<open>A group of digits with single underscores between them, as \<^verbatim>\<open>int\<close> and \<^verbatim>\<open>float\<close> read it.\<close>

definition digit_val :: "char \<Rightarrow> nat option" where
  "digit_val c = map_of (zip ''0123456789'' [0 ..< 10]) c"

fun digit_group :: "nat \<Rightarrow> bool \<Rightarrow> string \<Rightarrow> nat option" where
  "digit_group acc after_digit [] = (if after_digit then Some acc else None)"
| "digit_group acc after_digit (c # cs) =
     (if c = CHR ''_'' then (if after_digit \<and> cs \<noteq> [] then digit_group acc False cs else None)
      else case digit_val c of
             None \<Rightarrow> None
           | Some d \<Rightarrow> digit_group (acc * 10 + d) True cs)"

definition parse_digits :: "string \<Rightarrow> nat option" where
  "parse_digits s = digit_group 0 False s"

definition parse_signed :: "string \<Rightarrow> int option" where
  "parse_signed s =
     (case s of
        [] \<Rightarrow> None
      | c # cs \<Rightarrow>
          if c = CHR ''-'' then map_option (\<lambda>n. - int n) (parse_digits cs)
          else if c = CHR ''+'' then map_option int (parse_digits cs)
          else map_option int (parse_digits s))"

text \<open>\<^verbatim>\<open>int(v)\<close>: a float is truncated towards zero, a string is read in base ten.\<close>

fun py_int :: "pyval \<Rightarrow> error + int" where
  "py_int (PInt n) = Inr n"
| "py_int (PBool b) = Inr (if b then 1 else 0)"
| "py_int (PFloat r) = Inr (if r < 0 then \<lceil>r\<rceil> else \<lfloor>r\<rfloor>)"
| "py_int (PStr s) = (case parse_signed (strip s) of None \<Rightarrow> Inl ValueError | Some n \<Rightarrow> Inr n)"
| "py_int v = Inl TypeError"

text \<open>
  \<^verbatim>\<open>float(v)\<close>. A string is read as a decimal literal with an optional fraction and
  exponent; the literals for infinity and NaN have no value among the reals and give
  \<open>Unmodelled\<close>.
\<close>

definition split_at_char :: "char \<Rightarrow> string \<Rightarrow> string \<times> string option" where
  "split_at_char sep s =
     (let a = takeWhile (\<lambda>c. c \<noteq> sep) s; b = dropWhile (\<lambda>c. c \<noteq> sep) s
      in (a, if b = [] then None else Some (tl b)))"

definition parse_mantissa :: "string \<Rightarrow> real option" where
  "parse_mantissa s =
     (case split_at_char (CHR ''.'') s of
        (ip, None) \<Rightarrow> map_option real (parse_digits ip)
      | (ip, Some fp) \<Rightarrow>
          if ip = [] \<and> fp = [] then None
          else case (if ip = [] then Some 0 else parse_digits ip,
                     if fp = [] then Some 0 else parse_digits fp) of
                 (Some i, Some f) \<Rightarrow>
                   Some (real i + real f / 10 ^ length (filter (\<lambda>c. c \<noteq> CHR ''_'') fp))
               | _ \<Rightarrow> None)"

definition parse_float :: "string \<Rightarrow> error + real" where
  "parse_float s0 =
     (let s = map to_lower s0;
          neg = (s \<noteq> [] \<and> hd s = CHR ''-'');
          body = (if s \<noteq> [] \<and> (hd s = CHR ''-'' \<or> hd s = CHR ''+'') then tl s else s)
      in if body \<in> {''inf'', ''infinity'', ''nan''} then Inl Unmodelled
         else case split_at_char (CHR ''e'') body of
                (m, ex) \<Rightarrow>
                  (case (parse_mantissa m,
                         case ex of None \<Rightarrow> Some 0 | Some e \<Rightarrow> parse_signed e) of
                     (Some v, Some k) \<Rightarrow>
                       Inr ((if neg then - v else v) *
                            (if k < 0 then 1 / 10 ^ nat (- k) else 10 ^ nat k))
                   | _ \<Rightarrow> Inl ValueError))"

fun py_float :: "pyval \<Rightarrow> error + real" where
  "py_float (PFloat r) = Inr r"
| "py_float (PInt n) = Inr (of_int n)"
| "py_float (PBool b) = Inr (if b then 1 else 0)"
| "py_float (PStr s) = parse_float (strip s)"
| "py_float v = Inl TypeError"

subsection \<open>The clock\<close>

text \<open>
  \<^verbatim>\<open>now_iso\<close> is \<^verbatim>\<open>datetime.utcnow().isoformat() + "Z"\<close>. \<^verbatim>\<open>isoformat\<close> writes
  \<^verbatim>\<open>YYYY-MM-DDTHH:MM:SS.ffffff\<close>, and leaves the fraction out when the microsecond is 0.
\<close>

record datetime =
  year :: nat
  month :: nat
  day :: nat
  hour :: nat
  minute :: nat
  second :: nat
  microsecond :: nat

type_synonym clock = "nat \<Rightarrow> datetime"

definition isoformat :: "datetime \<Rightarrow> string" where
  "isoformat d =
     zero_pad 4 (year d) @ ''-'' @ zero_pad 2 (month d) @ ''-'' @ zero_pad 2 (day d) @ ''T'' @
     zero_pad 2 (hour d) @ '':'' @ zero_pad 2 (minute d) @ '':'' @ zero_pad 2 (second d) @
     (if microsecond d = 0 then [] else ''.'' @ zero_pad 6 (microsecond d))"

definition strftime_HMS :: "datetime \<Rightarrow> string" where
  "strftime_HMS d =
     zero_pad 2 (hour d) @ '':'' @ zero_pad 2 (minute d) @ '':'' @ zero_pad 2 (second d)"

subsection \<open>Tasks\<close>

text \<open>
  The dataclass \<^verbatim>\<open>DownloadTask\<close>. A field whose value the code converts or builds itself
  has the type the code gives it; a field that receives a value of a request payload or of
  a progress record as it comes is a \<open>pyval\<close>. \<^verbatim>\<open>progress\<close> is a float or an int
  (\<^verbatim>\<open>round\<close> of an int is an int), both read as the number they denote.
\<close>

record DownloadTask =
  url :: string
  output_dir :: pyval
  format_mode :: pyval
  audio_codec :: pyval
  subtitle_lang :: pyval
  proxy :: pyval
  playlist_limit :: int
  filename_template :: pyval
  embed_subtitles :: bool
  embed_metadata :: bool
  keep_thumbnails :: bool
  simulate :: bool
  task_id :: int
  filepath :: pyval
  rate_limit :: real
  start_time :: pyval
  end_time :: pyval
  tags :: "string list"
  task_notes :: pyval
  priority :: int
  quality_filter :: pyval
  quality_label :: pyval
  status :: string
  progress :: real
  eta :: pyval
  speed :: pyval
  message :: pyval
  created_at :: string
  last_update :: string

definition is_terminal :: "DownloadTask \<Rightarrow> bool" where
  "is_terminal t = (status t = ''Completed'' \<or> status t = ''Failed'')"

subsection \<open>The module state\<close>

text \<open>
  \<^verbatim>\<open>tasks\<close> is a dict: an association list in insertion order, with
  \<^verbatim>\<open>tasks[k] = v\<close> as \<open>AList.update\<close> and \<^verbatim>\<open>tasks.pop(k, None)\<close> as \<open>AList.delete\<close>.
  \<^verbatim>\<open>task_counter\<close> holds the next value of \<^verbatim>\<open>itertools.count(1)\<close>. \<^verbatim>\<open>history\<close> is the
  list kept in the history file. \<open>clock_reads\<close> counts the calls of \<^verbatim>\<open>utcnow\<close>.
\<close>

record state =
  tasks :: "(int \<times> DownloadTask) list"
  task_order :: "int list"
  task_counter :: int
  current_concurrency :: int
  active_workers :: int
  log_lines :: "string list"
  history :: "(string \<times> pyval) list list"
  clock_reads :: nat

text \<open>What the module reads from its surroundings: the clock and its own directory.\<close>

record env =
  utcnow :: clock
  base_dir :: string

definition LOG_LIMIT :: nat where
  "LOG_LIMIT = 300"

definition MAX_WORKERS :: int where
  "MAX_WORKERS = 12"

definition DEFAULT_CONCURRENCY :: int where
  "DEFAULT_CONCURRENCY = 2"

definition os_path_join :: "string \<Rightarrow> string \<Rightarrow> string" where
  "os_path_join a b =
     (if b \<noteq> [] \<and> hd b = CHR ''/'' then b
      else if a = [] \<or> last a = CHR ''/'' then a @ b
      else a @ ''/'' @ b)"

definition DEFAULT_DOWNLOAD_DIR :: "env \<Rightarrow> string" where
  "DEFAULT_DOWNLOAD_DIR e = os_path_join (base_dir e) ''downloads''"

definition init_state :: state where
  "init_state =
     \<lparr>tasks = [], task_order = [], task_counter = 1,
      current_concurrency = DEFAULT_CONCURRENCY, active_workers = 0,
      log_lines = [], history = [], clock_reads = 0\<rparr>"

definition tick :: "state \<Rightarrow> state" where
  "tick s = s\<lparr>clock_reads := Suc (clock_reads s)\<rparr>"

definition now_iso :: "env \<Rightarrow> state \<Rightarrow> string" where
  "now_iso e s = isoformat (utcnow e (clock_reads s)) @ ''Z''"

text \<open>\<^verbatim>\<open>deque(maxlen=n).append(x)\<close> and \<^verbatim>\<open>xs[-n:]\<close>: the last \<open>n\<close> elements stay.\<close>

definition keep_last :: "nat \<Rightarrow> 'a list \<Rightarrow> 'a list" where
  "keep_last n xs = drop (length xs - n) xs"

definition append_log :: "env \<Rightarrow> string \<Rightarrow> state \<Rightarrow> state" where
  "append_log e msg s =
     (let timestamp = strftime_HMS (utcnow e (clock_reads s))
      in tick (s\<lparr>log_lines := keep_last LOG_LIMIT (log_lines s @ [''['' @ timestamp @ ''] '' @ msg])\<rparr>))"

definition history_append :: "(string \<times> pyval) list \<Rightarrow> state \<Rightarrow> state" where
  "history_append r s = s\<lparr>history := keep_last 200 (history s @ [r])\<rparr>"

subsection \<open>update\_task\<close>

text \<open>
  The keyword arguments of \<^verbatim>\<open>update_task\<close>. Its callers pass the six runtime fields
  below; \<open>Other k v\<close> is a keyword \<open>k\<close> for which \<^verbatim>\<open>hasattr(task, k)\<close> is false.
\<close>

datatype kwarg =
    Status string
  | Progress real
  | Eta pyval
  | Speed pyval
  | Message pyval
  | Filepath pyval
  | Other string pyval

fun setattr_task :: "kwarg \<Rightarrow> DownloadTask \<Rightarrow> DownloadTask" where
  "setattr_task (Status v) t = t\<lparr>status := v\<rparr>"
| "setattr_task (Progress v) t = t\<lparr>progress := v\<rparr>"
| "setattr_task (Eta v) t = t\<lparr>eta := v\<rparr>"
| "setattr_task (Speed v) t = t\<lparr>speed := v\<rparr>"
| "setattr_task (Message v) t = t\<lparr>message := v\<rparr>"
| "setattr_task (Filepath v) t = t\<lparr>filepath := v\<rparr>"
| "setattr_task (Other k v) t = t"

definition update_task :: "env \<Rightarrow> int \<Rightarrow> kwarg list \<Rightarrow> state \<Rightarrow> DownloadTask option \<times> state" where
  "update_task e tid kwargs s =
     (case map_of (tasks s) tid of
        None \<Rightarrow> (None, s)
      | Some task \<Rightarrow>
          (let task' = (fold setattr_task kwargs task)\<lparr>last_update := now_iso e s\<rparr>
           in (Some task', tick (s\<lparr>tasks := AList.update tid task' (tasks s)\<rparr>))))"

subsection \<open>try\_schedule\_next\<close>

text \<open>
  The sort key \<^verbatim>\<open>(-tasks[tid].priority, tasks[tid].created_at)\<close>; pairs compare
  lexicographically and strings by code points. Only ids of the registry reach the key.
\<close>

definition sched_key :: "state \<Rightarrow> int \<Rightarrow> int \<times> string" where
  "sched_key s tid =
     (case map_of (tasks s) tid of
        Some t \<Rightarrow> (- priority t, created_at t)
      | None \<Rightarrow> (0, []))"

definition is_queued :: "state \<Rightarrow> int \<Rightarrow> bool" where
  "is_queued s tid =
     (case map_of (tasks s) tid of Some t \<Rightarrow> status t = ''Queued'' | None \<Rightarrow> False)"

text \<open>\<^verbatim>\<open>sorted\<close> is stable, as \<open>sort_key\<close> is.\<close>

definition queued_ids :: "state \<Rightarrow> int list" where
  "queued_ids s = sort_key (sched_key s) (filter (is_queued s) (task_order s))"

text \<open>
  The \<^verbatim>\<open>while\<close> loop over the sorted ids, with the tasks appended to \<^verbatim>\<open>to_start\<close>
  returned beside the state.
\<close>

fun admit :: "env \<Rightarrow> int list \<Rightarrow> state \<Rightarrow> DownloadTask list \<times> state" where
  "admit e [] s = ([], s)"
| "admit e (tid # rest) s =
     (if active_workers s < current_concurrency s then
        (case map_of (tasks s) tid of
           None \<Rightarrow> admit e rest s
         | Some task \<Rightarrow>
             if status task \<noteq> ''Queued'' then admit e rest s
             else
               (let task' = task\<lparr>status := ''Scheduled'', last_update := now_iso e s\<rparr>;
                    s' = tick (s\<lparr>tasks := AList.update tid task' (tasks s),
                                 active_workers := active_workers s + 1\<rparr>);
                    (to_start, s'') = admit e rest s'
                in (task' # to_start, s'')))
      else ([], s))"

text \<open>The result lists the tasks handed to the executor, in the order of submission to it.\<close>

definition try_schedule_next :: "env \<Rightarrow> state \<Rightarrow> DownloadTask list \<times> state" where
  "try_schedule_next e s = admit e (queued_ids s) s"

subsection \<open>\_progress\_hook\<close>

text \<open>
  The progress record is a dict of free-form values. \<^verbatim>\<open>isinstance(percent, (int, float))\<close>
  holds for ints, floats and booleans; \<^verbatim>\<open>round\<close> of an int or a boolean with one digit is
  the same number. \<^verbatim>\<open>status.capitalize()\<close> exists for a string only.
\<close>

definition pct_value :: "pyval \<Rightarrow> real" where
  "pct_value percent =
     (case percent of
        PFloat r \<Rightarrow> py_round1 r
      | PInt n \<Rightarrow> of_int n
      | PBool b \<Rightarrow> (if b then 1 else 0)
      | _ \<Rightarrow> 0)"

definition progress_hook :: "env \<Rightarrow> int \<Rightarrow> (string \<rightharpoonup> pyval) \<Rightarrow> state \<Rightarrow> error + state" where
  "progress_hook e tid info s =
     (let percent = dict_get info ''percent'';
          speed_v = dict_get info ''speed'';
          eta_v = dict_get info ''eta'';
          status_v = py_or (dict_get info ''status'') (PStr ''running'');
          filename = py_or (dict_get info ''filename'') (dict_get info ''_filename'')
      in case status_v of
           PStr st \<Rightarrow>
             Inr (snd (update_task e tid
               ([Progress (pct_value percent), Status (capitalize st), Eta eta_v, Speed speed_v,
                 Message (py_or filename status_v)] @
                (if truthy filename then [Filepath filename] else [])) s))
         | _ \<Rightarrow> Inl AttributeError)"

subsection \<open>\_run\_task\<close>

text \<open>
  What a run of the worker meets outside the module: \<^verbatim>\<open>build_options\<close> may raise before
  the \<^verbatim>\<open>try\<close> block is entered (it creates the output directory); otherwise the engine
  delivers progress records to the hook and then returns or raises an \<^verbatim>\<open>Exception\<close> with
  the given text. The options themselves only travel to the engine and are not modelled.
  An exception of the hook goes back into the engine, whose outcome is given.
\<close>

datatype outcome = Success | Raises string

datatype behaviour =
    BuildOptionsRaises
  | EngineRun "(string \<rightharpoonup> pyval) list" outcome

definition worker_begin :: "env \<Rightarrow> DownloadTask \<Rightarrow> state \<Rightarrow> state" where
  "worker_begin e task s =
     snd (update_task e (task_id task)
            [Status ''Running'', Message (PStr ''Preparing download''), Progress 0]
            (append_log e (''Starting '' @ url task) s))"

definition deliver :: "env \<Rightarrow> int \<Rightarrow> (string \<rightharpoonup> pyval) \<Rightarrow> state \<Rightarrow> state" where
  "deliver e tid info s = (case progress_hook e tid info s of Inl err \<Rightarrow> s | Inr s' \<Rightarrow> s')"

definition worker_failed :: "env \<Rightarrow> DownloadTask \<Rightarrow> string \<Rightarrow> state \<Rightarrow> state" where
  "worker_failed e task exc s =
     append_log e (''Failed '' @ url task @ '': '' @ exc)
       (snd (update_task e (task_id task) [Status ''Failed'', Message (PStr exc)] s))"

definition worker_completed :: "env \<Rightarrow> DownloadTask \<Rightarrow> state \<Rightarrow> state" where
  "worker_completed e task s =
     (let s1 = snd (update_task e (task_id task)
                 [Status ''Completed'', Message (PStr ''Download finished''), Progress 100] s);
          entry = [(''url'', PStr (url task)), (''output'', output_dir task),
                   (''format'', format_mode task), (''notes'', task_notes task),
                   (''tags'', PList (map PStr (tags task))),
                   (''quality'', quality_filter task), (''timestamp'', PStr (now_iso e s1))]
      in append_log e (''Finished '' @ url task) (history_append entry (tick s1)))"

definition worker_release :: "state \<Rightarrow> state" where
  "worker_release s = s\<lparr>active_workers := max (active_workers s - 1) 0\<rparr>"

text \<open>
  The result says whether an exception left \<^verbatim>\<open>_run_task\<close>, and lists the tasks that the
  closing admission pass handed to the executor.
\<close>

definition run_task :: "env \<Rightarrow> DownloadTask \<Rightarrow> behaviour \<Rightarrow> state \<Rightarrow> bool \<times> DownloadTask list \<times> state" where
  "run_task e task b s =
     (let s1 = worker_begin e task s
      in case b of
           BuildOptionsRaises \<Rightarrow> (True, [], s1)
         | EngineRun infos out \<Rightarrow>
             (let s2 = fold (deliver e (task_id task)) infos s1;
                  s3 = (case out of
                          Raises exc \<Rightarrow> worker_failed e task exc s2
                        | Success \<Rightarrow> worker_completed e task s2);
                  (started, s4) = try_schedule_next e (worker_release s3)
              in (False, started, s4)))"

subsection \<open>queue\_tasks\<close>

definition bind_err :: "error + 'a \<Rightarrow> ('a \<Rightarrow> error + 'b) \<Rightarrow> error + 'b" where
  "bind_err m f = (case m of Inl err \<Rightarrow> Inl err | Inr x \<Rightarrow> f x)"

text \<open>\<^verbatim>\<open>(payload.get(k) or "")\<close> followed by a string method: any other truthy value has none.\<close>

definition str_or_empty :: "pyval \<Rightarrow> error + string" where
  "str_or_empty v = (case py_or v (PStr []) of PStr x \<Rightarrow> Inr x | _ \<Rightarrow> Inl AttributeError)"

definition stripped_nonempty :: "string list \<Rightarrow> string list" where
  "stripped_nonempty xs = map strip (filter (\<lambda>x. strip x \<noteq> []) xs)"

definition parse_urls :: "(string \<rightharpoonup> pyval) \<Rightarrow> error + string list" where
  "parse_urls payload =
     bind_err (str_or_empty (dict_get payload ''urls''))
       (\<lambda>text. Inr (stripped_nonempty (splitlines text)))"

text \<open>
  The loop body under the lock: the next id, the task with its two timestamps (the
  dataclass calls \<^verbatim>\<open>now_iso\<close> for \<^verbatim>\<open>created_at\<close> and again for \<^verbatim>\<open>last_update\<close>), the
  registration and the log line. \<open>proto\<close> carries the fields shared by all urls of the
  payload.
\<close>

fun create_tasks :: "env \<Rightarrow> DownloadTask \<Rightarrow> string list \<Rightarrow> state \<Rightarrow> DownloadTask list \<times> state" where
  "create_tasks e proto [] s = ([], s)"
| "create_tasks e proto (u # us) s =
     (let tid = task_counter s;
          task = proto\<lparr>url := u, task_id := tid, created_at := now_iso e s,
                       last_update := now_iso e (tick s)\<rparr>;
          s1 = (tick (tick s))\<lparr>task_counter := tid + 1,
                  tasks := AList.update tid task (tasks s),
                  task_order := task_order s @ [tid]\<rparr>;
          (created, s2) = create_tasks e proto us (append_log e (''Queued '' @ u) s1)
      in (task # created, s2))"

text \<open>
  The constructor call \<^verbatim>\<open>DownloadTask(...)\<close> with the fields that all urls of a payload
  share and the defaults of the dataclass; the url, the id and the two timestamps are set
  per task in the loop.
\<close>

definition shared_fields ::
    "env \<Rightarrow> (string \<rightharpoonup> pyval) \<Rightarrow> int \<Rightarrow> real \<Rightarrow> string \<Rightarrow> int \<Rightarrow> DownloadTask" where
  "shared_fields e payload playlist_limit_v rate_limit_v tags_text priority_val =
     \<lparr>url = [],
      output_dir = py_or (dict_get payload ''output_dir'') (PStr (DEFAULT_DOWNLOAD_DIR e)),
      format_mode = py_or (dict_get payload ''format_mode'') (PStr ''Smart (best combined)''),
      audio_codec = py_or (dict_get payload ''audio_codec'') (PStr ''mp3''),
      subtitle_lang = py_or (dict_get payload ''subtitle_lang'') (PStr []),
      proxy = py_or (dict_get payload ''proxy'') (PStr []),
      playlist_limit = playlist_limit_v,
      filename_template =
        py_or (dict_get payload ''filename_template'') (PStr ''%(title)s.%(ext)s''),
      embed_subtitles = truthy (dict_get payload ''embed_subtitles''),
      embed_metadata = truthy (dict_get payload ''embed_metadata''),
      keep_thumbnails = truthy (dict_get payload ''keep_thumbnails''),
      simulate = truthy (dict_get payload ''simulate''),
      task_id = 0,
      filepath = PNone,
      rate_limit = rate_limit_v,
      start_time = py_or (dict_get payload ''start_time'') (PStr []),
      end_time = py_or (dict_get payload ''end_time'') (PStr []),
      tags = stripped_nonempty (split_comma tags_text),
      task_notes = py_or (dict_get payload ''notes'') (PStr []),
      priority = max 1 (min priority_val 10),
      quality_filter = py_or (dict_get payload ''quality_filter'') (PStr ''best''),
      quality_label = py_or (dict_get payload ''quality_label'') (PStr ''Auto (best)''),
      status = ''Queued'',
      progress = 0,
      eta = PNone,
      speed = PNone,
      message = PStr ''Queued'',
      created_at = [],
      last_update = []\<rparr>"

definition queue_tasks :: "env \<Rightarrow> (string \<rightharpoonup> pyval) \<Rightarrow> state \<Rightarrow> error + DownloadTask list \<times> state" where
  "queue_tasks e payload s =
     bind_err (parse_urls payload) (\<lambda>urls.
       if urls = [] then Inr ([], s)
       else
         bind_err (py_int (py_or (dict_get payload ''playlist_limit'') (PInt 0))) (\<lambda>playlist_limit_v.
         bind_err (py_float (py_or (dict_get payload ''rate_limit'') (PFloat 0))) (\<lambda>rate_limit_v.
         bind_err (str_or_empty (dict_get payload ''tags'')) (\<lambda>tags_text.
         bind_err (py_int (py_or (dict_get payload ''priority'') (PInt 3))) (\<lambda>priority_val.
           Inr (create_tasks e
                  (shared_fields e payload playlist_limit_v rate_limit_v tags_text priority_val)
                  urls s))))))"

subsection \<open>clear\_completed\_tasks, set\_concurrency, gather\_insights\<close>

definition remove_task :: "int \<Rightarrow> int \<times> state \<Rightarrow> int \<times> state" where
  "remove_task tid rs =
     (case rs of (removed, s) \<Rightarrow>
        (removed + 1,
         s\<lparr>tasks := AList.delete tid (tasks s), task_order := remove1 tid (task_order s)\<rparr>))"

definition clear_completed_tasks :: "env \<Rightarrow> state \<Rightarrow> int \<times> state" where
  "clear_completed_tasks e s =
     (let to_remove = map fst (filter (\<lambda>(tid, task). is_terminal task) (tasks s));
          (removed, s1) = fold remove_task to_remove (0, s)
      in (removed,
          if removed \<noteq> 0
          then append_log e (''Cleared '' @ str_int removed @ '' finished task(s)'') s1
          else s1))"

definition set_concurrency :: "env \<Rightarrow> int \<Rightarrow> state \<Rightarrow> state" where
  "set_concurrency e v s =
     (let c = max 1 (min v MAX_WORKERS)
      in append_log e (''Concurrency tuned to '' @ str_int c) (s\<lparr>current_concurrency := c\<rparr>))"

record insights =
  queued :: nat
  scheduled :: nat
  running :: nat
  completed :: nat
  failed :: nat
  avg_progress :: real

text \<open>\<^verbatim>\<open>a / b\<close> raises for a zero divisor.\<close>

definition py_truediv :: "real \<Rightarrow> real \<Rightarrow> error + real" where
  "py_truediv a b = (if b = 0 then Inl ZeroDivisionError else Inr (a / b))"

text \<open>\<^verbatim>\<open>Counter(...).get(k, 0)\<close>: the number of occurrences, 0 for a key never counted.\<close>

definition counter_get :: "string list \<Rightarrow> string \<Rightarrow> nat" where
  "counter_get xs k = length (filter (\<lambda>x. x = k) xs)"

definition gather_insights :: "state \<Rightarrow> error + insights" where
  "gather_insights s =
     (let snapshot = map snd (tasks s);
          counter = map status snapshot;
          total = length snapshot
      in bind_err (if total \<noteq> 0 then py_truediv (sum_list (map progress snapshot)) (real total)
                   else Inr 0)
           (\<lambda>avg. Inr \<lparr>queued = counter_get counter ''Queued'',
                       scheduled = counter_get counter ''Scheduled'',
                       running = counter_get counter ''Running'',
                       completed = counter_get counter ''Completed'',
                       failed = counter_get counter ''Failed'',
                       avg_progress = py_round1 avg\<rparr>))"

subsection \<open>The request handlers\<close>

text \<open>The task list of \<^verbatim>\<open>api_status\<close>, before \<^verbatim>\<open>to_dict\<close>: the display order.\<close>

definition ordered_tasks :: "state \<Rightarrow> DownloadTask list" where
  "ordered_tasks s = List.map_filter (map_of (tasks s)) (task_order s)"

definition api_add_to_queue ::
    "env \<Rightarrow> (string \<rightharpoonup> pyval) \<Rightarrow> state \<Rightarrow> error + DownloadTask list \<times> DownloadTask list \<times> state" where
  "api_add_to_queue e payload s =
     bind_err (queue_tasks e payload s) (\<lambda>(tasks_created, s1).
       case try_schedule_next e s1 of (started, s2) \<Rightarrow> Inr (tasks_created, started, s2))"

text \<open>\<^verbatim>\<open>payload.get("concurrency", current_concurrency)\<close>: the default only for a missing key.\<close>

definition api_start_queue ::
    "env \<Rightarrow> (string \<rightharpoonup> pyval) \<Rightarrow> state \<Rightarrow> error + DownloadTask list \<times> state" where
  "api_start_queue e payload s =
     bind_err (py_int (case payload ''concurrency'' of
                         None \<Rightarrow> PInt (current_concurrency s)
                       | Some v \<Rightarrow> v))
       (\<lambda>concurrency. Inr (try_schedule_next e (set_concurrency e concurrency s)))"

subsection \<open>Interleavings\<close>

text \<open>
  The atomic pieces that threads interleave: the request handlers' calls and the blocks of
  a worker. A request whose handler raises leaves the state as it was.
\<close>

datatype event =
    QueueTasks "string \<rightharpoonup> pyval"
  | TryScheduleNext
  | SetConcurrency int
  | ClearCompleted
  | WorkerBegin DownloadTask
  | ProgressHook int "string \<rightharpoonup> pyval"
  | WorkerFailed DownloadTask string
  | WorkerCompleted DownloadTask
  | WorkerRelease

fun step :: "env \<Rightarrow> event \<Rightarrow> state \<Rightarrow> state" where
  "step e (QueueTasks payload) s =
     (case queue_tasks e payload s of Inl err \<Rightarrow> s | Inr (created, s') \<Rightarrow> s')"
| "step e TryScheduleNext s = snd (try_schedule_next e s)"
| "step e (SetConcurrency v) s = set_concurrency e v s"
| "step e ClearCompleted s = snd (clear_completed_tasks e s)"
| "step e (WorkerBegin task) s = worker_begin e task s"
| "step e (ProgressHook tid info) s = deliver e tid info s"
| "step e (WorkerFailed task exc) s = worker_failed e task exc s"
| "step e (WorkerCompleted task) s = worker_completed e task s"
| "step e WorkerRelease s = worker_release s"

definition run_events :: "env \<Rightarrow> event list \<Rightarrow> state \<Rightarrow> state" where
  "run_events e evs s = fold (step e) evs s"

subsection \<open>Example inputs\<close>

text \<open>A clock whose n-th reading is n microseconds after midnight of 1 January 2024.\<close>

definition example_env :: env where
  "example_env =
     \<lparr>utcnow = (\<lambda>n. \<lparr>year = 2024, month = 1, day = 1, hour = 0, minute = 0, second = 0,
                       microsecond = n\<rparr>),
      base_dir = ''/srv/app''\<rparr>"

text \<open>A task with the given id, status, priority and creation stamp.\<close>

definition example_task :: "int \<Rightarrow> string \<Rightarrow> int \<Rightarrow> string \<Rightarrow> DownloadTask" where
  "example_task i st p c =
     \<lparr>url = ''http://example.org/v'', output_dir = PStr ''/srv/app/downloads'',
      format_mode = PStr ''Smart (best combined)'', audio_codec = PStr ''mp3'',
      subtitle_lang = PStr [], proxy = PStr [], playlist_limit = 0,
      filename_template = PStr ''%(title)s.%(ext)s'', embed_subtitles = False,
      embed_metadata = False, keep_thumbnails = False, simulate = False, task_id = i,
      filepath = PNone, rate_limit = 0, start_time = PStr [], end_time = PStr [], tags = [],
      task_notes = PStr [], priority = p, quality_filter = PStr ''best'',
      quality_label = PStr ''Auto (best)'', status = st, progress = 0, eta = PNone,
      speed = PNone, message = PStr ''Queued'', created_at = c, last_update = c\<rparr>"

definition example_state :: "(int \<times> DownloadTask) list \<Rightarrow> int \<Rightarrow> int \<Rightarrow> state" where
  "example_state ts limit active =
     \<lparr>tasks = ts, task_order = map fst ts, task_counter = 1 + int (length ts),
      current_concurrency = limit, active_workers = active,
      log_lines = [], history = [], clock_reads = 0\<rparr>"

subsection \<open>Reading keyword arguments\<close>




text \<open>Two completed tasks, a failed one and a running one; a single scheduled task.\<close>

definition scenario_d :: state where
  "scenario_d =
     example_state
       [(1, example_task 1 ''Completed'' 3 ''2024-01-01T00:00:00.000001Z''),
        (2, example_task 2 ''Running'' 3 ''2024-01-01T00:00:00.000002Z''),
        (3, example_task 3 ''Failed'' 3 ''2024-01-01T00:00:00.000003Z''),
        (4, example_task 4 ''Completed'' 3 ''2024-01-01T00:00:00.000004Z'')] 2 1"


text \<open>The status of the task registered under an id, if there is one.\<close>

definition status_of :: "state \<Rightarrow> int \<Rightarrow> string option" where
  "status_of s k = map_option status (map_of (tasks s) k)"


definition two_queued :: state where
  "two_queued =
     example_state
       [(1, example_task 1 ''Queued'' 3 ''2024-01-01T00:00:00.000001Z''),
        (2, example_task 2 ''Queued'' 3 ''2024-01-01T00:00:00.000004Z'')] 2 0"


text \<open>Task 1 running on the only worker slot, task 2 queued behind it.\<close>

definition failing_run :: state where
  "failing_run =
     example_state
       [(1, example_task 1 ''Running'' 3 ''2024-01-01T00:00:00.000001Z''),
        (2, example_task 2 ''Queued'' 3 ''2024-01-01T00:00:00.000004Z'')] 1 1"

text \<open>\<^verbatim>\<open>isinstance(v, (int, float))\<close>, and the progress of the task registered under an id.\<close>

fun is_number :: "pyval \<Rightarrow> bool" where
  "is_number (PInt n) = True"
| "is_number (PFloat r) = True"
| "is_number (PBool b) = True"
| "is_number v = False"

definition progress_of :: "state \<Rightarrow> int \<Rightarrow> real option" where
  "progress_of s k = map_option progress (map_of (tasks s) k)"

text \<open>Two progress records: one with a percentage of 250, one with 49.96 and a filename.\<close>

definition overshoot :: "string \<rightharpoonup> pyval" where
  "overshoot = [''percent'' \<mapsto> PFloat 250, ''status'' \<mapsto> PStr ''downloading'']"

definition halfway :: "string \<rightharpoonup> pyval" where
  "halfway = [''percent'' \<mapsto> PFloat 49.96, ''status'' \<mapsto> PStr ''downloading'',
              ''filename'' \<mapsto> PStr ''/srv/app/downloads/v.mp4'']"

text \<open>
  The registry as a dict with ids given out by the counter: the keys are distinct and lie
  below the next id.
\<close>

definition registry_ok :: "state \<Rightarrow> bool" where
  "registry_ok s =
     (distinct (map fst (tasks s)) \<and> list_all (\<lambda>k. k < task_counter s) (map fst (tasks s)))"


section \<open>Properties\<close>

subsection \<open>Auxiliary facts\<close>

lemma py_round1_zero: "py_round1 0 = 0"
  by (simp add: py_round1_def)

lemma counter_get_absent: "k \<notin> set xs \<Longrightarrow> counter_get xs k = 0"
  by (induction xs) (auto simp: counter_get_def)

lemma splitlines_from_chars:
  "l \<in> set (splitlines_from cur u) \<Longrightarrow> set l \<subseteq> set cur \<union> set u"
  by (induction cur u rule: splitlines_from.induct) (auto split: if_splits)

lemma strip_all_space:
  assumes "list_all is_space l"
  shows "strip l = []"
proof -
  from assms have d: "dropWhile is_space l = []"
    by (simp add: list_all_iff dropWhile_eq_Nil_conv)
  show ?thesis unfolding strip_def d by simp
qed

lemma stripped_nonempty_spaces:
  assumes "list_all is_space u"
  shows "stripped_nonempty (splitlines u) = []"
proof -
  have "strip l = []" if "l \<in> set (splitlines u)" for l
  proof -
    from that have "set l \<subseteq> set u"
      using splitlines_from_chars [of l "[]" u] by (simp add: splitlines_def)
    with assms have "list_all is_space l" by (auto simp: list_all_iff)
    then show ?thesis by (rule strip_all_space)
  qed
  then show ?thesis by (simp add: stripped_nonempty_def filter_empty_conv)
qed








lemma fold_remove_task:
  "fold remove_task ks (n, s) =
     (n + int (length ks),
      s\<lparr>tasks := filter (\<lambda>p. fst p \<notin> set ks) (tasks s),
        task_order := fold remove1 ks (task_order s)\<rparr>)"
proof (induction ks arbitrary: n s)
  case Nil
  then show ?case by simp
next
  case (Cons k ks)
  have "filter (\<lambda>p. fst p \<notin> set ks) (AList.delete k (tasks s)) =
        filter (\<lambda>p. fst p \<notin> set (k # ks)) (tasks s)"
    by (auto simp: AList.delete_eq intro: filter_cong)
  with Cons show ?case by (simp add: remove_task_def)
qed

lemma map_filter_remove1:
  "f x = None \<Longrightarrow> List.map_filter f (remove1 x xs) = List.map_filter f xs"
  by (induction xs) (auto simp: map_filter_simps split: option.splits)

lemma map_filter_fold_remove1:
  "\<forall>k \<in> set ks. f k = None \<Longrightarrow> List.map_filter f (fold remove1 ks xs) = List.map_filter f xs"
  by (induction ks arbitrary: xs) (simp_all add: map_filter_remove1)

lemma fold_remove1_distinct:
  "distinct xs \<Longrightarrow> fold remove1 ks xs = filter (\<lambda>x. x \<notin> set ks) xs"
proof (induction ks arbitrary: xs)
  case Nil
  then show ?case by simp
next
  case (Cons k ks)
  from Cons.prems have "remove1 k xs = filter (\<lambda>x. x \<noteq> k) xs"
    by (simp add: distinct_remove1_removeAll removeAll_filter_not_eq) (metis)
  with Cons show ?case by (auto intro: filter_cong)
qed

lemma map_of_filter_snd:
  "distinct (map fst al) \<Longrightarrow>
   map_of (filter (\<lambda>p. P (snd p)) al) k =
     (case map_of al k of None \<Rightarrow> None | Some v \<Rightarrow> if P v then Some v else None)"
proof (induction al)
  case Nil
  then show ?case by simp
next
  case (Cons p al)
  then show ?case
    by (cases p) (auto simp: map_of_eq_None_iff image_iff split: option.splits)
qed

lemma filter_map_filter:
  "filter P (List.map_filter f xs) =
   List.map_filter (\<lambda>k. case f k of None \<Rightarrow> None | Some v \<Rightarrow> if P v then Some v else None) xs"
  by (induction xs) (auto simp: map_filter_simps split: option.splits)

lemma terminal_keys:
  assumes "distinct (map fst al)" "p \<in> set al"
  shows "fst p \<in> set (map fst (filter (\<lambda>(tid, task). is_terminal task) al)) \<longleftrightarrow> is_terminal (snd p)"
proof
  assume "fst p \<in> set (map fst (filter (\<lambda>(tid, task). is_terminal task) al))"
  then obtain q where q: "q \<in> set al" "is_terminal (snd q)" "fst q = fst p"
    by (auto simp: case_prod_beta)
  with assms have "q = p"
    by (metis eq_key_imp_eq_value prod.collapse)
  with q show "is_terminal (snd p)" by simp
next
  assume "is_terminal (snd p)"
  with assms(2) show "fst p \<in> set (map fst (filter (\<lambda>(tid, task). is_terminal task) al))"
    by (force simp: case_prod_beta)
qed

subsection \<open>Submission of an empty url list\<close>

text \<open>
  Claim C9. When the \<^verbatim>\<open>urls\<close> entry of the payload is missing or falsy (\<^verbatim>\<open>None\<close>, the
  empty string), or is a string of white space only (so that every line of it is blank),
  \<^verbatim>\<open>queue_tasks\<close> returns the empty list without raising and leaves the whole state as
  it was: the registry, the order sequence and the id counter among it.
\<close>

theorem queue_tasks_no_urls:
  assumes "\<not> truthy (dict_get payload ''urls'') \<or>
           (\<exists>u. dict_get payload ''urls'' = PStr u \<and> list_all is_space u)"
  shows "queue_tasks e payload s = Inr ([], s)"
proof -
  have "parse_urls payload = Inr []"
    using assms
  proof
    assume "\<not> truthy (dict_get payload ''urls'')"
    then show ?thesis
      by (simp add: parse_urls_def str_or_empty_def py_or_def bind_err_def splitlines_def
          stripped_nonempty_def)
  next
    assume "\<exists>u. dict_get payload ''urls'' = PStr u \<and> list_all is_space u"
    then obtain u where u: "dict_get payload ''urls'' = PStr u" "list_all is_space u" by blast
    then show ?thesis
      by (simp add: parse_urls_def str_or_empty_def py_or_def bind_err_def
          stripped_nonempty_spaces)
  qed
  then show ?thesis by (simp add: queue_tasks_def bind_err_def)
qed

text \<open>A payload of a space, a line feed, a tab and a carriage return.\<close>

theorem queue_tasks_no_urls_witness:
  "list_all is_space [CHR 0x20, CHR 0x0A, CHR 0x09, CHR 0x0D] \<and>
   queue_tasks example_env [''urls'' \<mapsto> PStr [CHR 0x20, CHR 0x0A, CHR 0x09, CHR 0x0D]] init_state
     = Inr ([], init_state)"
  using queue_tasks_no_urls
    [of "[''urls'' \<mapsto> PStr [CHR 0x20, CHR 0x0A, CHR 0x09, CHR 0x0D]]" example_env init_state]
  by (simp add: dict_get_def is_space_def)

subsection \<open>Insights of an empty registry\<close>

text \<open>
  Claim C10. \<^verbatim>\<open>gather_insights\<close> never raises: the division by the number of tasks is
  only made when that number is not zero. For an empty registry every count and the
  average progress are 0, and the count of a status that no task has is 0.
\<close>

theorem gather_insights_total:
  "(\<exists>r. gather_insights s = Inr r) \<and>
   (tasks s = [] \<longrightarrow>
      gather_insights s =
        Inr \<lparr>queued = 0, scheduled = 0, running = 0, completed = 0, failed = 0,
             avg_progress = 0\<rparr>) \<and>
   (\<forall>r. gather_insights s = Inr r \<longrightarrow>
      (''Queued'' \<notin> set (map (status \<circ> snd) (tasks s)) \<longrightarrow> queued r = 0) \<and>
      (''Scheduled'' \<notin> set (map (status \<circ> snd) (tasks s)) \<longrightarrow> scheduled r = 0) \<and>
      (''Running'' \<notin> set (map (status \<circ> snd) (tasks s)) \<longrightarrow> running r = 0) \<and>
      (''Completed'' \<notin> set (map (status \<circ> snd) (tasks s)) \<longrightarrow> completed r = 0) \<and>
      (''Failed'' \<notin> set (map (status \<circ> snd) (tasks s)) \<longrightarrow> failed r = 0))"
proof (intro conjI allI impI)
  show "\<exists>r. gather_insights s = Inr r"
    by (simp add: gather_insights_def py_truediv_def bind_err_def Let_def)
next
  assume "tasks s = []"
  then show "gather_insights s =
        Inr \<lparr>queued = 0, scheduled = 0, running = 0, completed = 0, failed = 0,
             avg_progress = 0\<rparr>"
    by (simp add: gather_insights_def bind_err_def counter_get_def py_round1_zero)
next
  fix r assume "gather_insights s = Inr r" "''Queued'' \<notin> set (map (status \<circ> snd) (tasks s))"
  then show "queued r = 0"
    by (auto simp: gather_insights_def py_truediv_def bind_err_def Let_def counter_get_absent
        split: if_splits)
next
  fix r assume "gather_insights s = Inr r" "''Scheduled'' \<notin> set (map (status \<circ> snd) (tasks s))"
  then show "scheduled r = 0"
    by (auto simp: gather_insights_def py_truediv_def bind_err_def Let_def counter_get_absent
        split: if_splits)
next
  fix r assume "gather_insights s = Inr r" "''Running'' \<notin> set (map (status \<circ> snd) (tasks s))"
  then show "running r = 0"
    by (auto simp: gather_insights_def py_truediv_def bind_err_def Let_def counter_get_absent
        split: if_splits)
next
  fix r assume "gather_insights s = Inr r" "''Completed'' \<notin> set (map (status \<circ> snd) (tasks s))"
  then show "completed r = 0"
    by (auto simp: gather_insights_def py_truediv_def bind_err_def Let_def counter_get_absent
        split: if_splits)
next
  fix r assume "gather_insights s = Inr r" "''Failed'' \<notin> set (map (status \<circ> snd) (tasks s))"
  then show "failed r = 0"
    by (auto simp: gather_insights_def py_truediv_def bind_err_def Let_def counter_get_absent
        split: if_splits)
qed

text \<open>The state of a fresh process has no task.\<close>

theorem gather_insights_total_witness:
  "tasks init_state = [] \<and>
   gather_insights init_state =
     Inr \<lparr>queued = 0, scheduled = 0, running = 0, completed = 0, failed = 0,
          avg_progress = 0\<rparr> \<and>
   ''Failed'' \<notin> set (map (status \<circ> snd) (tasks init_state))"
  using gather_insights_total [of init_state] by (simp add: init_state_def)

subsection \<open>update\_task\<close>



subsection \<open>clear\_completed\_tasks\<close>

text \<open>
  Claim C6. On a registry (a dict, so with distinct keys) \<^verbatim>\<open>clear_completed_tasks\<close>
  returns the number of tasks whose status is \<^verbatim>\<open>Completed\<close> or \<^verbatim>\<open>Failed\<close> and deletes
  exactly those: every other task stays under its id, the tasks shown in display order
  are the former ones without the deleted, in the same relative order, and so is the order
  sequence when it has no duplicates.
\<close>

theorem clear_completed_tasks_exact:
  assumes "distinct (map fst (tasks s))"
    and "clear_completed_tasks e s = (removed, s')"
  shows "removed = int (length (filter (\<lambda>p. is_terminal (snd p)) (tasks s))) \<and>
         tasks s' = filter (\<lambda>p. \<not> is_terminal (snd p)) (tasks s) \<and>
         (\<forall>k t. map_of (tasks s) k = Some t \<and> \<not> is_terminal t \<longrightarrow> map_of (tasks s') k = Some t) \<and>
         (\<forall>k t. map_of (tasks s) k = Some t \<and> is_terminal t \<longrightarrow> map_of (tasks s') k = None) \<and>
         ordered_tasks s' = filter (\<lambda>t. \<not> is_terminal t) (ordered_tasks s) \<and>
         (distinct (task_order s) \<longrightarrow>
            task_order s' = filter (\<lambda>k. \<forall>t. map_of (tasks s) k = Some t \<longrightarrow> \<not> is_terminal t) (task_order s))"
proof -
  define ks where "ks = map fst (filter (\<lambda>(tid, task). is_terminal task) (tasks s))"
  define s1 where "s1 = s\<lparr>tasks := filter (\<lambda>p. fst p \<notin> set ks) (tasks s),
        task_order := fold remove1 ks (task_order s)\<rparr>"
  have f: "fold remove_task ks (0, s) = (int (length ks), s1)"
    by (simp add: fold_remove_task s1_def)
  have r: "removed = int (length ks)"
    and ts': "tasks s' = tasks s1" and to': "task_order s' = task_order s1"
    using assms(2) f
    by (auto simp: clear_completed_tasks_def ks_def [symmetric] Let_def append_log_def tick_def
        split: if_splits)
  have t1: "tasks s1 = filter (\<lambda>p. \<not> is_terminal (snd p)) (tasks s)"
    unfolding s1_def using terminal_keys [OF assms(1)]
    by (auto simp: ks_def intro!: filter_cong)
  have m: "map_of (tasks s1) k =
      (case map_of (tasks s) k of None \<Rightarrow> None | Some v \<Rightarrow> if \<not> is_terminal v then Some v else None)" for k
    unfolding t1 using assms(1) by (rule map_of_filter_snd)
  have kn: "\<forall>k \<in> set ks. map_of (tasks s1) k = None"
  proof
    fix k assume "k \<in> set ks"
    then obtain p where p: "p \<in> set (tasks s)" "fst p = k" "is_terminal (snd p)"
      by (auto simp: ks_def case_prod_beta)
    with assms(1) have "map_of (tasks s) k = Some (snd p)"
      by (metis map_of_is_SomeI prod.collapse)
    with p show "map_of (tasks s1) k = None" by (simp add: m)
  qed
  have o: "ordered_tasks s1 = filter (\<lambda>t. \<not> is_terminal t) (ordered_tasks s)"
  proof -
    have "ordered_tasks s1 = List.map_filter (map_of (tasks s1)) (task_order s)"
      using kn by (simp add: ordered_tasks_def s1_def map_filter_fold_remove1)
    also have "\<dots> = filter (\<lambda>t. \<not> is_terminal t) (ordered_tasks s)"
      by (simp add: ordered_tasks_def filter_map_filter m [abs_def])
    finally show ?thesis .
  qed
  have os: "ordered_tasks s' = ordered_tasks s1"
    by (simp add: ordered_tasks_def ts' to')
  have d: "task_order s1 = filter (\<lambda>k. \<forall>t. map_of (tasks s) k = Some t \<longrightarrow> \<not> is_terminal t) (task_order s)"
    if "distinct (task_order s)"
  proof -
    have "k \<notin> set ks \<longleftrightarrow> (\<forall>t. map_of (tasks s) k = Some t \<longrightarrow> \<not> is_terminal t)" for k
    proof
      assume "k \<notin> set ks"
      show "\<forall>t. map_of (tasks s) k = Some t \<longrightarrow> \<not> is_terminal t"
      proof (intro allI impI)
        fix t assume "map_of (tasks s) k = Some t"
        then have "(k, t) \<in> set (tasks s)" by (rule map_of_SomeD)
        with \<open>k \<notin> set ks\<close> show "\<not> is_terminal t" by (force simp: ks_def)
      qed
    next
      assume a: "\<forall>t. map_of (tasks s) k = Some t \<longrightarrow> \<not> is_terminal t"
      show "k \<notin> set ks"
      proof
        assume "k \<in> set ks"
        then obtain p where p: "p \<in> set (tasks s)" "fst p = k" "is_terminal (snd p)"
          by (auto simp: ks_def case_prod_beta)
        with assms(1) have "map_of (tasks s) k = Some (snd p)"
          by (metis map_of_is_SomeI prod.collapse)
        with a p show False by simp
      qed
    qed
    with that show ?thesis by (simp add: s1_def fold_remove1_distinct)
  qed
  have r': "removed = int (length (filter (\<lambda>p. is_terminal (snd p)) (tasks s)))"
    unfolding r ks_def by (simp add: case_prod_unfold)
  show ?thesis
    using r' t1 m o d by (simp add: ts' to' os)
qed

text \<open>
  Two completed tasks, one failed and one running: three are removed and the running task
  stays.
\<close>

theorem clear_completed_tasks_exact_witness:
  "distinct (map fst (tasks scenario_d)) \<and>
   fst (clear_completed_tasks example_env scenario_d) = 3 \<and>
   tasks (snd (clear_completed_tasks example_env scenario_d)) =
     [(2, example_task 2 ''Running'' 3 ''2024-01-01T00:00:00.000002Z'')] \<and>
   ordered_tasks (snd (clear_completed_tasks example_env scenario_d)) =
     [example_task 2 ''Running'' 3 ''2024-01-01T00:00:00.000002Z''] \<and>
   task_order (snd (clear_completed_tasks example_env scenario_d)) = [2]"
  using clear_completed_tasks_exact
    [of scenario_d example_env "fst (clear_completed_tasks example_env scenario_d)"
      "snd (clear_completed_tasks example_env scenario_d)"]
  by (simp add: scenario_d_def example_state_def example_task_def is_terminal_def
      ordered_tasks_def map_filter_simps)

subsection \<open>What each operation leaves alone\<close>

lemma map_of_Some_key: "map_of al k = Some v \<Longrightarrow> k \<in> fst ` set al"
  by (drule map_of_SomeD) force

lemma tick_frame [simp]:
  "tasks (tick s) = tasks s" "task_order (tick s) = task_order s"
  "task_counter (tick s) = task_counter s" "current_concurrency (tick s) = current_concurrency s"
  "active_workers (tick s) = active_workers s" "log_lines (tick s) = log_lines s"
  "history (tick s) = history s" "clock_reads (tick s) = Suc (clock_reads s)"
  by (simp_all add: tick_def)

lemma append_log_frame [simp]:
  "tasks (append_log e m s) = tasks s" "task_order (append_log e m s) = task_order s"
  "task_counter (append_log e m s) = task_counter s"
  "current_concurrency (append_log e m s) = current_concurrency s"
  "active_workers (append_log e m s) = active_workers s"
  "history (append_log e m s) = history s"
  by (simp_all add: append_log_def Let_def)

lemma history_append_frame [simp]:
  "tasks (history_append r s) = tasks s" "task_order (history_append r s) = task_order s"
  "task_counter (history_append r s) = task_counter s"
  "current_concurrency (history_append r s) = current_concurrency s"
  "active_workers (history_append r s) = active_workers s"
  "log_lines (history_append r s) = log_lines s"
  by (simp_all add: history_append_def)

lemma update_task_frame [simp]:
  "task_order (snd (update_task e tid kws s)) = task_order s"
  "task_counter (snd (update_task e tid kws s)) = task_counter s"
  "current_concurrency (snd (update_task e tid kws s)) = current_concurrency s"
  "active_workers (snd (update_task e tid kws s)) = active_workers s"
  "log_lines (snd (update_task e tid kws s)) = log_lines s"
  "history (snd (update_task e tid kws s)) = history s"
  by (simp_all add: update_task_def Let_def split: option.splits)

lemma update_task_keys [simp]:
  "map fst (tasks (snd (update_task e tid kws s))) = map fst (tasks s)"
proof (cases "map_of (tasks s) tid")
  case None
  then show ?thesis by (simp add: update_task_def)
next
  case (Some t)
  then have "tid \<in> fst ` set (tasks s)"
    by (rule map_of_Some_key)
  with Some show ?thesis by (simp add: update_task_def Let_def update_keys)
qed

lemma update_task_lookup:
  "map_of (tasks (snd (update_task e tid kws s))) k =
     (if k = tid then
        map_option (\<lambda>t. (fold setattr_task kws t)\<lparr>last_update := now_iso e s\<rparr>) (map_of (tasks s) k)
      else map_of (tasks s) k)"
  by (simp add: update_task_def Let_def update_conv' split: option.splits)

lemma admit_frame:
  "admit e ids s = (ts, s') \<Longrightarrow>
     current_concurrency s' = current_concurrency s \<and> task_order s' = task_order s \<and>
     task_counter s' = task_counter s \<and> log_lines s' = log_lines s \<and>
     history s' = history s \<and> map fst (tasks s') = map fst (tasks s)"
proof (induction ids arbitrary: s ts s')
  case Nil
  then show ?case by simp
next
  case (Cons tid rest)
  show ?case
  proof (cases "active_workers s < current_concurrency s")
    case False
    with Cons.prems show ?thesis by simp
  next
    case True
    show ?thesis
    proof (cases "map_of (tasks s) tid")
      case None
      with True Cons.prems have "admit e rest s = (ts, s')" by simp
      then show ?thesis by (rule Cons.IH)
    next
      case (Some task)
      show ?thesis
      proof (cases "status task = ''Queued''")
        case False
        with True Some Cons.prems have "admit e rest s = (ts, s')" by simp
        then show ?thesis by (rule Cons.IH)
      next
        case q: True
        define task' where "task' = task\<lparr>status := ''Scheduled'', last_update := now_iso e s\<rparr>"
        define s1 where "s1 = tick (s\<lparr>tasks := AList.update tid task' (tasks s),
                                 active_workers := active_workers s + 1\<rparr>)"
        obtain ts1 s2 where r: "admit e rest s1 = (ts1, s2)" by (cases "admit e rest s1")
        with True Some q Cons.prems have eq: "ts = task' # ts1" "s' = s2"
          by (simp_all add: Let_def task'_def s1_def)
        from Some have "tid \<in> fst ` set (tasks s)"
          by (rule map_of_Some_key)
        then have "map fst (tasks s1) = map fst (tasks s)"
          by (simp add: s1_def update_keys)
        with Cons.IH [OF r] show ?thesis
          by (simp add: eq s1_def)
      qed
    qed
  qed
qed

lemma admit_active:
  "admit e ids s = (ts, s') \<Longrightarrow>
     active_workers s' = active_workers s + int (length ts) \<and>
     active_workers s' \<le> max (active_workers s) (current_concurrency s)"
proof (induction ids arbitrary: s ts s')
  case Nil
  then show ?case by simp
next
  case (Cons tid rest)
  show ?case
  proof (cases "active_workers s < current_concurrency s")
    case False
    with Cons.prems show ?thesis by simp
  next
    case True
    show ?thesis
    proof (cases "map_of (tasks s) tid")
      case None
      with True Cons.prems have "admit e rest s = (ts, s')" by simp
      then show ?thesis by (rule Cons.IH)
    next
      case (Some task)
      show ?thesis
      proof (cases "status task = ''Queued''")
        case False
        with True Some Cons.prems have "admit e rest s = (ts, s')" by simp
        then show ?thesis by (rule Cons.IH)
      next
        case q: True
        define task' where "task' = task\<lparr>status := ''Scheduled'', last_update := now_iso e s\<rparr>"
        define s1 where "s1 = tick (s\<lparr>tasks := AList.update tid task' (tasks s),
                                 active_workers := active_workers s + 1\<rparr>)"
        obtain ts1 s2 where r: "admit e rest s1 = (ts1, s2)" by (cases "admit e rest s1")
        with True Some q Cons.prems have eq: "ts = task' # ts1" "s' = s2"
          by (simp_all add: Let_def task'_def s1_def)
        have "active_workers s1 = active_workers s + 1" "current_concurrency s1 = current_concurrency s"
          by (simp_all add: s1_def)
        with Cons.IH [OF r] True show ?thesis
          by (simp add: eq)
      qed
    qed
  qed
qed

lemma admit_tasks:
  "admit e ids s = (ts, s') \<Longrightarrow> map_of (tasks s) k = Some t \<Longrightarrow>
     \<exists>t'. map_of (tasks s') k = Some t' \<and>
          (t' = t \<or>
           (status t = ''Queued'' \<and>
            t' = t\<lparr>status := ''Scheduled'', last_update := last_update t'\<rparr>))"
proof (induction ids arbitrary: s ts s' t)
  case Nil
  then show ?case by simp
next
  case (Cons tid rest)
  show ?case
  proof (cases "active_workers s < current_concurrency s")
    case False
    with Cons.prems show ?thesis by simp
  next
    case True
    show ?thesis
    proof (cases "map_of (tasks s) tid")
      case None
      with True Cons.prems have "admit e rest s = (ts, s')" by simp
      then show ?thesis using Cons.prems(2) by (rule Cons.IH)
    next
      case (Some task)
      show ?thesis
      proof (cases "status task = ''Queued''")
        case False
        with True Some Cons.prems have "admit e rest s = (ts, s')" by simp
        then show ?thesis using Cons.prems(2) by (rule Cons.IH)
      next
        case q: True
        define task' where "task' = task\<lparr>status := ''Scheduled'', last_update := now_iso e s\<rparr>"
        define s1 where "s1 = tick (s\<lparr>tasks := AList.update tid task' (tasks s),
                                 active_workers := active_workers s + 1\<rparr>)"
        obtain ts1 s2 where r: "admit e rest s1 = (ts1, s2)" by (cases "admit e rest s1")
        with True Some q Cons.prems(1) have eq: "s' = s2"
          by (simp add: Let_def task'_def s1_def)
        show ?thesis
        proof (cases "k = tid")
          case kt: True
          with Some Cons.prems(2) have tt: "t = task" by simp
          have "map_of (tasks s1) k = Some task'"
            by (simp add: s1_def kt update_conv')
          from Cons.IH [OF r this] obtain t'' where
            a: "map_of (tasks s2) k = Some t''" and
            b: "t'' = task' \<or> status task' = ''Queued'' \<and>
                  t'' = task'\<lparr>status := ''Scheduled'', last_update := last_update t''\<rparr>"
            by blast
          have "status task' \<noteq> ''Queued''" by (simp add: task'_def)
          with b have "t'' = task'" by blast
          with a have "map_of (tasks s') k = Some task'" by (simp add: eq)
          moreover have "status t = ''Queued''" using q tt by simp
          moreover have "task' = t\<lparr>status := ''Scheduled'', last_update := last_update task'\<rparr>"
            by (simp add: task'_def tt)
          ultimately show ?thesis by blast
        next
          case False
          with Cons.prems(2) have "map_of (tasks s1) k = Some t"
            by (simp add: s1_def update_conv')
          from Cons.IH [OF r this] show ?thesis by (simp only: eq)
        qed
      qed
    qed
  qed
qed



lemma queue_tasks_cases:
  assumes "queue_tasks e payload s = Inr r"
  shows "r = ([], s) \<or> (\<exists>proto urls. status proto = ''Queued'' \<and> r = create_tasks e proto urls s)"
proof -
  from assms obtain urls where u: "parse_urls payload = Inr urls"
    by (cases "parse_urls payload") (simp_all add: queue_tasks_def bind_err_def)
  show ?thesis
  proof (cases "urls = []")
    case True
    with assms u show ?thesis by (simp add: queue_tasks_def bind_err_def)
  next
    case False
    from assms u False obtain pl where pl: "py_int (py_or (dict_get payload ''playlist_limit'') (PInt 0)) = Inr pl"
      by (cases "py_int (py_or (dict_get payload ''playlist_limit'') (PInt 0))")
         (simp_all add: queue_tasks_def bind_err_def)
    from assms u False pl obtain rl where rl: "py_float (py_or (dict_get payload ''rate_limit'') (PFloat 0)) = Inr rl"
      by (cases "py_float (py_or (dict_get payload ''rate_limit'') (PFloat 0))")
         (simp_all add: queue_tasks_def bind_err_def)
    from assms u False pl rl obtain tg where tg: "str_or_empty (dict_get payload ''tags'') = Inr tg"
      by (cases "str_or_empty (dict_get payload ''tags'')")
         (simp_all add: queue_tasks_def bind_err_def)
    from assms u False pl rl tg obtain pr where pr: "py_int (py_or (dict_get payload ''priority'') (PInt 3)) = Inr pr"
      by (cases "py_int (py_or (dict_get payload ''priority'') (PInt 3))")
         (simp_all add: queue_tasks_def bind_err_def)
    from assms u False pl rl tg pr
    have "r = create_tasks e (shared_fields e payload pl rl tg pr) urls s"
      by (simp add: queue_tasks_def bind_err_def)
    moreover have "status (shared_fields e payload pl rl tg pr) = ''Queued''"
      by (simp add: shared_fields_def)
    ultimately have "\<exists>proto. status proto = ''Queued'' \<and> r = create_tasks e proto urls s"
      by blast
    then show ?thesis by blast
  qed
qed





subsection \<open>The active worker count and the concurrency limit\<close>




subsection \<open>set\_concurrency and the start request\<close>

lemma admit_keeps_unqueued:
  assumes "admit e ids s = (ts, s')" "map_of (tasks s) k = Some t" "status t \<noteq> ''Queued''"
  shows "map_of (tasks s') k = Some t"
  using admit_tasks [OF assms(1,2)] assms(3) by blast

lemma set_concurrency_frame:
  "tasks (set_concurrency e n s) = tasks s"
  "task_order (set_concurrency e n s) = task_order s"
  "active_workers (set_concurrency e n s) = active_workers s"
  "current_concurrency (set_concurrency e n s) = max 1 (min n MAX_WORKERS)"
  by (simp_all add: set_concurrency_def Let_def)

text \<open>
  Claim C5, as amended. \<^verbatim>\<open>set_concurrency(n)\<close> sets the limit to \<open>n\<close> clamped into
  \<open>[1, MAX_WORKERS]\<close> and appends the log line; it changes no task and not the active
  count, and it runs no admission pass. The pass is run by its caller
  \<^verbatim>\<open>api_start_queue\<close> right after it: the handler returns what
  \<^verbatim>\<open>try_schedule_next\<close> makes of the state that \<^verbatim>\<open>set_concurrency\<close> left. After the
  handler the limit is the clamped value, the active count has not gone down, and every
  task that was not \<^verbatim>\<open>Queued\<close> is as it was: nothing is preempted.
\<close>

theorem api_start_queue_sets_limit:
  assumes "payload ''concurrency'' = Some (PInt n)"
  shows "api_start_queue e payload s = Inr (try_schedule_next e (set_concurrency e n s)) \<and>
         current_concurrency (set_concurrency e n s) = max 1 (min n MAX_WORKERS) \<and>
         1 \<le> current_concurrency (set_concurrency e n s) \<and>
         current_concurrency (set_concurrency e n s) \<le> MAX_WORKERS \<and>
         log_lines (set_concurrency e n s) =
           keep_last LOG_LIMIT (log_lines s @
             [''['' @ strftime_HMS (utcnow e (clock_reads s)) @ ''] '' @
              ''Concurrency tuned to '' @ str_int (max 1 (min n MAX_WORKERS))]) \<and>
         tasks (set_concurrency e n s) = tasks s \<and>
         active_workers (set_concurrency e n s) = active_workers s \<and>
         (\<forall>started s'. api_start_queue e payload s = Inr (started, s') \<longrightarrow>
            current_concurrency s' = max 1 (min n MAX_WORKERS) \<and>
            active_workers s \<le> active_workers s' \<and>
            (\<forall>k t. map_of (tasks s) k = Some t \<and> status t \<noteq> ''Queued'' \<longrightarrow>
               map_of (tasks s') k = Some t))"
proof -
  have a: "api_start_queue e payload s = Inr (try_schedule_next e (set_concurrency e n s))"
    using assms by (simp add: api_start_queue_def bind_err_def)
  have l: "log_lines (set_concurrency e n s) =
           keep_last LOG_LIMIT (log_lines s @
             [''['' @ strftime_HMS (utcnow e (clock_reads s)) @ ''] '' @
              ''Concurrency tuned to '' @ str_int (max 1 (min n MAX_WORKERS))])"
    by (simp add: set_concurrency_def append_log_def Let_def)
  have b: "1 \<le> max 1 (min n MAX_WORKERS)" "max 1 (min n MAX_WORKERS) \<le> MAX_WORKERS"
    by (simp_all add: MAX_WORKERS_def)
  have p: "current_concurrency s' = max 1 (min n MAX_WORKERS) \<and>
            active_workers s \<le> active_workers s' \<and>
            (\<forall>k t. map_of (tasks s) k = Some t \<and> status t \<noteq> ''Queued'' \<longrightarrow>
               map_of (tasks s') k = Some t)"
    if "api_start_queue e payload s = Inr (started, s')" for started s'
  proof -
    define s1 where "s1 = set_concurrency e n s"
    from that a have r: "admit e (queued_ids s1) s1 = (started, s')"
      by (simp add: try_schedule_next_def s1_def)
    have "current_concurrency s' = max 1 (min n MAX_WORKERS)"
      using admit_frame [OF r] by (simp add: s1_def set_concurrency_frame)
    moreover have "active_workers s \<le> active_workers s'"
      using admit_active [OF r] by (simp add: s1_def set_concurrency_frame)
    moreover have "map_of (tasks s') k = Some t"
      if "map_of (tasks s) k = Some t \<and> status t \<noteq> ''Queued''" for k t
      using admit_keeps_unqueued [OF r, of k t] that by (simp add: s1_def set_concurrency_frame)
    ultimately show ?thesis by blast
  qed
  show ?thesis
    using a l b p by (simp add: set_concurrency_frame)
qed

text \<open>A request for 40 workers is clamped to 12.\<close>

theorem api_start_queue_sets_limit_witness:
  "[''concurrency'' \<mapsto> PInt 40] ''concurrency'' = Some (PInt 40) \<and>
   api_start_queue example_env [''concurrency'' \<mapsto> PInt 40] two_queued =
     Inr (try_schedule_next example_env (set_concurrency example_env 40 two_queued)) \<and>
   current_concurrency (set_concurrency example_env 40 two_queued) = 12"
  using api_start_queue_sets_limit [of "[''concurrency'' \<mapsto> PInt 40]" 40 example_env two_queued]
  by (simp add: MAX_WORKERS_def)

text \<open>
  The claim as stated fails for \<^verbatim>\<open>set_concurrency\<close> itself: after \<^verbatim>\<open>set_concurrency(5)\<close>
  on two queued tasks with no active worker, capacity is free and task 1 is still queued; an
  admission pass on that state would have admitted it.
\<close>

theorem set_concurrency_admits_nothing:
  "active_workers (set_concurrency example_env 5 two_queued) <
     current_concurrency (set_concurrency example_env 5 two_queued) \<and>
   is_queued (set_concurrency example_env 5 two_queued) 1 \<and>
   \<not> is_queued (snd (try_schedule_next example_env (set_concurrency example_env 5 two_queued))) 1"
  by (simp add: set_concurrency_def MAX_WORKERS_def try_schedule_next_def
      queued_ids_def two_queued_def example_state_def is_queued_def sched_key_def
      example_task_def Let_def update_conv')

subsection \<open>A worker whose engine run raises\<close>

lemma deliver_cases:
  "deliver e tid info s = s \<or> (\<exists>kws. deliver e tid info s = snd (update_task e tid kws s))"
  by (auto simp: deliver_def progress_hook_def Let_def split: pyval.splits)

lemma deliver_keys: "map fst (tasks (deliver e tid info s)) = map fst (tasks s)"
  using deliver_cases [of e tid info s] by (auto simp del: update_task_keys simp: update_task_keys)













text \<open>
  An exception raised by \<^verbatim>\<open>build_options\<close>, before the \<^verbatim>\<open>try\<close> block, does leave the
  worker, and nothing after the first update is run.
\<close>

lemma run_task_build_options_escapes:
  "run_task e task BuildOptionsRaises s = (True, [], worker_begin e task s)"
  unfolding run_task_def Let_def by simp

subsection \<open>The progress reporter\<close>

lemma py_round1_tenth: "\<exists>k::int. py_round1 r = of_int k / 10"
  unfolding py_round1_def Let_def by (rule exI) (rule refl)

lemma py_round1_near: "\<bar>py_round1 r - r\<bar> \<le> 1 / 20"
proof -
  define y where "y = r * 10"
  define f where "f = \<lfloor>y\<rfloor>"
  have lo: "of_int f \<le> y" and hi: "y < of_int f + 1"
    unfolding f_def by linarith+
  have r: "r = y / 10" by (simp add: y_def)
  consider "y - of_int f < 1 / 2" | "1 / 2 < y - of_int f" | "y - of_int f = 1 / 2"
    by linarith
  then show ?thesis
  proof cases
    case 1
    then have "py_round1 r = of_int f / 10"
      by (simp add: py_round1_def Let_def y_def [symmetric] f_def [symmetric])
    with 1 lo show ?thesis unfolding r by (simp add: field_simps)
  next
    case 2
    then have "py_round1 r = of_int (f + 1) / 10"
      by (simp add: py_round1_def Let_def y_def [symmetric] f_def [symmetric])
    with 2 hi show ?thesis unfolding r by (simp add: field_simps)
  next
    case 3
    then have "py_round1 r = of_int f / 10 \<or> py_round1 r = of_int (f + 1) / 10"
      by (simp add: py_round1_def Let_def y_def [symmetric] f_def [symmetric])
    with 3 show ?thesis unfolding r by (auto simp: field_simps)
  qed
qed

lemma pct_value_not_number: "\<not> is_number v \<Longrightarrow> pct_value v = 0"
  by (cases v) (simp_all add: pct_value_def)

text \<open>
  Claim C8, as amended. For a task in the registry and a progress record whose status is
  missing, falsy or a string, \<^verbatim>\<open>_progress_hook\<close> returns normally and its effect is one
  call of \<^verbatim>\<open>update_task\<close>. Afterwards the progress of the task is the percentage rounded
  to one decimal when it is a float (a multiple of one tenth, at most 0.05 away from the
  percentage), the percentage itself when it is an int, and 0 when it is missing or not a
  number; no bound of a range is applied. The status is the capitalized status text
  (\<^verbatim>\<open>Running\<close> by default), eta and speed are those of the record, and a filename that
  is present is written to the file path and the message; without one the file path stays
  and the message is the status text. \<^verbatim>\<open>last_update\<close> is refreshed.
\<close>

theorem progress_hook_normalizes:
  assumes "map_of (tasks s) tid = Some t"
    and "py_or (dict_get info ''status'') (PStr ''running'') = PStr st"
  shows "\<exists>s' t'. progress_hook e tid info s = Inr s' \<and>
           map_of (tasks s') tid = Some t' \<and>
           (\<exists>kwargs. s' = snd (update_task e tid kwargs s)) \<and>
           (\<forall>r. dict_get info ''percent'' = PFloat r \<longrightarrow>
                progress t' = py_round1 r \<and> (\<exists>k::int. progress t' = of_int k / 10) \<and>
                \<bar>progress t' - r\<bar> \<le> 1 / 20) \<and>
           (\<forall>n. dict_get info ''percent'' = PInt n \<longrightarrow> progress t' = of_int n) \<and>
           (\<not> is_number (dict_get info ''percent'') \<longrightarrow> progress t' = 0) \<and>
           status t' = capitalize st \<and>
           eta t' = dict_get info ''eta'' \<and>
           speed t' = dict_get info ''speed'' \<and>
           (truthy (py_or (dict_get info ''filename'') (dict_get info ''_filename'')) \<longrightarrow>
              filepath t' = py_or (dict_get info ''filename'') (dict_get info ''_filename'') \<and>
              message t' = py_or (dict_get info ''filename'') (dict_get info ''_filename'')) \<and>
           (\<not> truthy (py_or (dict_get info ''filename'') (dict_get info ''_filename'')) \<longrightarrow>
              filepath t' = filepath t \<and> message t' = PStr st) \<and>
           last_update t' = now_iso e s"
proof -
  define fn where "fn = py_or (dict_get info ''filename'') (dict_get info ''_filename'')"
  define kwargs where "kwargs =
     [Progress (pct_value (dict_get info ''percent'')), Status (capitalize st),
      Eta (dict_get info ''eta''), Speed (dict_get info ''speed''),
      Message (py_or fn (PStr st))] @ (if truthy fn then [Filepath fn] else [])"
  define s' where "s' = snd (update_task e tid kwargs s)"
  define t' where "t' = (fold setattr_task kwargs t)\<lparr>last_update := now_iso e s\<rparr>"
  have h: "progress_hook e tid info s = Inr s'"
    using assms(2) by (simp add: progress_hook_def Let_def s'_def kwargs_def fn_def)
  have m: "map_of (tasks s') tid = Some t'"
    using assms(1) by (simp add: s'_def update_task_lookup t'_def)
  have p: "progress t' = pct_value (dict_get info ''percent'')"
    by (simp add: t'_def kwargs_def)
  have st: "status t' = capitalize st" by (simp add: t'_def kwargs_def)
  have et: "eta t' = dict_get info ''eta''" by (simp add: t'_def kwargs_def)
  have sp: "speed t' = dict_get info ''speed''" by (simp add: t'_def kwargs_def)
  have lu: "last_update t' = now_iso e s" by (simp add: t'_def)
  have f1: "truthy fn \<longrightarrow> filepath t' = fn \<and> message t' = fn"
    by (simp add: t'_def kwargs_def py_or_def)
  have f2: "\<not> truthy fn \<longrightarrow> filepath t' = filepath t \<and> message t' = PStr st"
    by (simp add: t'_def kwargs_def py_or_def)
  have pf: "\<forall>r. dict_get info ''percent'' = PFloat r \<longrightarrow>
                progress t' = py_round1 r \<and> (\<exists>k::int. progress t' = of_int k / 10) \<and>
                \<bar>progress t' - r\<bar> \<le> 1 / 20"
  proof (intro allI impI)
    fix r assume "dict_get info ''percent'' = PFloat r"
    with p have "progress t' = py_round1 r" by (simp add: pct_value_def)
    then show "progress t' = py_round1 r \<and> (\<exists>k::int. progress t' = of_int k / 10) \<and>
                \<bar>progress t' - r\<bar> \<le> 1 / 20"
      using py_round1_tenth [of r] py_round1_near [of r] by simp
  qed
  have pi: "\<forall>n. dict_get info ''percent'' = PInt n \<longrightarrow> progress t' = of_int n"
    using p by (simp add: pct_value_def)
  have pn: "\<not> is_number (dict_get info ''percent'') \<longrightarrow> progress t' = 0"
    using p by (simp add: pct_value_not_number)
  have k: "\<exists>kwargs. s' = snd (update_task e tid kwargs s)"
    unfolding s'_def by (rule exI [of _ kwargs]) (rule refl)
  show ?thesis
    apply (rule exI [of _ s'])
    apply (rule exI [of _ t'])
    using h m k pf pi pn st et sp f1 f2 lu unfolding fn_def
    apply (intro conjI)
    apply assumption+
    done
qed

text \<open>A record with 49.96 percent, the status \<^verbatim>\<open>downloading\<close> and a filename.\<close>

theorem progress_hook_normalizes_witness:
  "map_of (tasks failing_run) 1 = Some (example_task 1 ''Running'' 3 ''2024-01-01T00:00:00.000001Z'') \<and>
   py_or (dict_get halfway ''status'') (PStr ''running'') = PStr ''downloading'' \<and>
   (\<exists>s' t'. progress_hook example_env 1 halfway failing_run = Inr s' \<and>
      map_of (tasks s') 1 = Some t' \<and> progress t' = 50 \<and> status t' = ''Downloading'' \<and>
      filepath t' = PStr ''/srv/app/downloads/v.mp4'')"
proof -
  have a: "map_of (tasks failing_run) 1 =
             Some (example_task 1 ''Running'' 3 ''2024-01-01T00:00:00.000001Z'')"
    by (simp add: failing_run_def example_state_def)
  have b: "py_or (dict_get halfway ''status'') (PStr ''running'') = PStr ''downloading''"
    by (simp add: halfway_def dict_get_def py_or_def)
  have pc: "dict_get halfway ''percent'' = PFloat 49.96"
    by (simp add: halfway_def dict_get_def)
  have fnm: "py_or (dict_get halfway ''filename'') (dict_get halfway ''_filename'') =
               PStr ''/srv/app/downloads/v.mp4''"
    by (simp add: halfway_def dict_get_def py_or_def)
  have rd: "py_round1 49.96 = 50" by (simp add: py_round1_def)
  have cp: "capitalize ''downloading'' = ''Downloading''"
    by (simp add: to_upper_def to_lower_def lower_letters_def upper_letters_def)
  from progress_hook_normalizes [OF a b, of example_env] obtain s' t' where
    h: "progress_hook example_env 1 halfway failing_run = Inr s'" and
    m: "map_of (tasks s') 1 = Some t'" and
    pf: "\<forall>r. dict_get halfway ''percent'' = PFloat r \<longrightarrow>
                progress t' = py_round1 r \<and> (\<exists>k::int. progress t' = of_int k / 10) \<and>
                \<bar>progress t' - r\<bar> \<le> 1 / 20" and
    st: "status t' = capitalize ''downloading''" and
    fp: "truthy (py_or (dict_get halfway ''filename'') (dict_get halfway ''_filename'')) \<longrightarrow>
              filepath t' = py_or (dict_get halfway ''filename'') (dict_get halfway ''_filename'') \<and>
              message t' = py_or (dict_get halfway ''filename'') (dict_get halfway ''_filename'')"
    by (elim exE conjE) (rule that)
  from pf [rule_format, OF pc] have "progress t' = py_round1 49.96" by (rule conjunct1)
  with rd have p50: "progress t' = 50" by simp
  from st cp have sd: "status t' = ''Downloading''" by simp
  from fp fnm have ff: "filepath t' = PStr ''/srv/app/downloads/v.mp4''" by simp
  from h m p50 sd ff have
    "\<exists>s' t'. progress_hook example_env 1 halfway failing_run = Inr s' \<and>
      map_of (tasks s') 1 = Some t' \<and> progress t' = 50 \<and> status t' = ''Downloading'' \<and>
      filepath t' = PStr ''/srv/app/downloads/v.mp4''"
    by (intro exI conjI)
  with a b show ?thesis by (intro conjI)
qed

text \<open>
  The claim as stated fails in its clamping: a percentage of 250 is stored as the progress
  250, above 100.
\<close>

theorem progress_hook_not_clamped:
  "(case progress_hook example_env 1 overshoot failing_run of
      Inl err \<Rightarrow> False
    | Inr s' \<Rightarrow> progress_of s' 1 = Some 250) \<and> \<not> (250 \<le> (100 :: real))"
  by (simp add: progress_hook_def overshoot_def dict_get_def py_or_def pct_value_def
      py_round1_def progress_of_def update_task_lookup failing_run_def example_state_def Let_def)

subsection \<open>The status of a task under each step\<close>


lemma status_of_tasks_eq: "tasks s' = tasks s \<Longrightarrow> status_of s' k = status_of s k"
  by (simp add: status_of_def)













text \<open>The registry invariant holds at the start and is kept by every step.\<close>

lemma registry_ok_keys:
  "map fst (tasks s') = map fst (tasks s) \<Longrightarrow> task_counter s' = task_counter s \<Longrightarrow>
   registry_ok s \<Longrightarrow> registry_ok s'"
  by (simp add: registry_ok_def)

lemma create_tasks_ok:
  "create_tasks e proto us s = (c, s') \<Longrightarrow> registry_ok s \<Longrightarrow> registry_ok s'"
proof (induction us arbitrary: s c s')
  case Nil
  then show ?case by simp
next
  case (Cons u us)
  define tid where "tid = task_counter s"
  define task where "task = proto\<lparr>url := u, task_id := tid, created_at := now_iso e s,
                       last_update := now_iso e (tick s)\<rparr>"
  define s1 where "s1 = append_log e (''Queued '' @ u)
       ((tick (tick s))\<lparr>task_counter := tid + 1,
                  tasks := AList.update tid task (tasks s),
                  task_order := task_order s @ [tid]\<rparr>)"
  obtain c1 s2 where r: "create_tasks e proto us s1 = (c1, s2)" by (cases "create_tasks e proto us s1")
  with Cons.prems(1) have eq: "s' = s2"
    by (simp add: Let_def task_def s1_def tid_def)
  have t1: "tasks s1 = AList.update tid task (tasks s)" and c1: "task_counter s1 = tid + 1"
    by (simp_all add: s1_def)
  have fresh: "tid \<notin> fst ` set (tasks s)"
    using Cons.prems(2) by (auto simp: registry_ok_def list_all_iff tid_def)
  have k1: "map fst (tasks s1) = map fst (tasks s) @ [tid]"
    using fresh by (simp add: t1 update_keys)
  have "registry_ok s1"
    using Cons.prems(2) fresh by (auto simp: registry_ok_def k1 c1 list_all_iff tid_def)
  with Cons.IH [OF r] show ?case by (simp add: eq)
qed

lemma registry_ok_init: "registry_ok init_state"
  by (simp add: registry_ok_def init_state_def)

lemma registry_ok_step:
  assumes "registry_ok s"
  shows "registry_ok (step e ev s)"
proof (cases ev)
  case (QueueTasks payload)
  show ?thesis
  proof (cases "queue_tasks e payload s")
    case (Inl err)
    with QueueTasks assms show ?thesis by simp
  next
    case (Inr r)
    obtain c s' where r: "r = (c, s')" by (cases r)
    from queue_tasks_cases [OF Inr] have "registry_ok s'"
    proof
      assume "r = ([], s)" with r assms show ?thesis by simp
    next
      assume "\<exists>proto urls. status proto = ''Queued'' \<and> r = create_tasks e proto urls s"
      then obtain proto urls where "create_tasks e proto urls s = (c, s')" using r by auto
      then show ?thesis using assms by (rule create_tasks_ok)
    qed
    with QueueTasks Inr r show ?thesis by simp
  qed
next
  case TryScheduleNext
  obtain ts s' where r: "admit e (queued_ids s) s = (ts, s')" by (cases "admit e (queued_ids s) s")
  from admit_frame [OF r] assms have "registry_ok s'" by (simp add: registry_ok_def)
  with r TryScheduleNext show ?thesis by (simp add: try_schedule_next_def)
next
  case (SetConcurrency v)
  with assms show ?thesis by (simp add: registry_ok_def set_concurrency_def Let_def)
next
  case ClearCompleted
  define ks where "ks = map fst (filter (\<lambda>(tid, task). is_terminal task) (tasks s))"
  define s1 where "s1 = s\<lparr>tasks := filter (\<lambda>p. fst p \<notin> set ks) (tasks s),
        task_order := fold remove1 ks (task_order s)\<rparr>"
  have f: "fold remove_task ks (0, s) = (int (length ks), s1)"
    by (simp add: fold_remove_task s1_def)
  have "tasks (snd (clear_completed_tasks e s)) = tasks s1"
    and "task_counter (snd (clear_completed_tasks e s)) = task_counter s1"
    by (simp_all add: clear_completed_tasks_def ks_def [symmetric] f Let_def)
  moreover have "registry_ok s1"
    using assms by (auto simp: registry_ok_def s1_def list_all_iff distinct_map_filter)
  ultimately show ?thesis by (simp add: ClearCompleted registry_ok_def)
next
  case (WorkerBegin task)
  with assms show ?thesis by (simp add: registry_ok_def worker_begin_def)
next
  case (ProgressHook tid info)
  from deliver_cases [of e tid info s] have "task_counter (deliver e tid info s) = task_counter s"
    by auto
  with deliver_keys [of e tid info s] assms ProgressHook show ?thesis
    by (simp add: registry_ok_def)
next
  case (WorkerFailed task exc)
  with assms show ?thesis by (simp add: registry_ok_def worker_failed_def)
next
  case (WorkerCompleted task)
  with assms show ?thesis by (simp add: registry_ok_def worker_completed_def Let_def)
next
  case WorkerRelease
  with assms show ?thesis by (simp add: registry_ok_def worker_release_def)
qed

lemma registry_ok_run_events: "registry_ok s \<Longrightarrow> registry_ok (run_events e evs s)"
  unfolding run_events_def by (induction evs arbitrary: s) (simp_all add: registry_ok_step)




end
